theory Spec2Isabelle
  imports Main "HOL-Library.Word"
begin

section \<open>The blinky sample of templates/nfed/src/main.c\<close>

text \<open>
  The file holds two entry points, one per board: on the Feather nRF9151 the LED sits
  behind the PMIC's LED driver (Variant A, lines 19-34), on every other board it is a
  plain GPIO pin (Variant B, lines 45-73). Both call into the operating system and its
  drivers; those calls are the program's only effects. The model therefore runs an entry
  point against a platform (what each driver call answers and does to the hardware) and
  logs every call, in order, in a trace.
\<close>

subsection \<open>Types of the platform interface\<close>

text \<open>A C \<open>int\<close>: 32 bits, read as a signed number by \<open>sint\<close>.\<close>

type_synonym c_int = "32 word"

text \<open>
  The pin configuration flags of the GPIO header. The program passes
  \<open>GPIO_OUTPUT_ACTIVE\<close> only; the other constructors are the header's further
  choices of direction and initial level.
\<close>

datatype gpio_flags_t = GPIO_INPUT | GPIO_OUTPUT_INACTIVE | GPIO_OUTPUT_ACTIVE

text \<open>A timeout as \<open>K_MSEC(ms)\<close> builds it.\<close>

datatype k_timeout_t = K_MSEC int

text \<open>One entry of the trace per call the program makes, with the call's arguments.\<close>

datatype event =
    Log_inf string
  | Printk string
  | Led_on "32 word"
  | Led_off "32 word"
  | Sleep_ms int
  | Is_ready
  | Configure gpio_flags_t
  | Toggle

text \<open>
  The platform under the program, over any hardware state \<open>'h\<close>: the status each
  driver call returns and the hardware state it leaves, and what the passing of time
  does to the hardware while the thread sleeps.
\<close>

record 'h platform =
  dev_led_on :: "32 word \<Rightarrow> 'h \<Rightarrow> c_int \<times> 'h"
  dev_led_off :: "32 word \<Rightarrow> 'h \<Rightarrow> c_int \<times> 'h"
  dev_is_ready :: "'h \<Rightarrow> bool"
  dev_pin_configure :: "gpio_flags_t \<Rightarrow> 'h \<Rightarrow> c_int \<times> 'h"
  dev_pin_toggle :: "'h \<Rightarrow> c_int \<times> 'h"
  dev_elapse :: "int \<Rightarrow> 'h \<Rightarrow> 'h"

record 'h world =
  hw :: 'h
  trace :: "event list"

definition boot :: "'h \<Rightarrow> 'h world" where
  "boot h = \<lparr>hw = h, trace = []\<rparr>"

text \<open>
  How a statement ends: control falls through to the next statement, the function
  returns a value, or the fuel of the enclosing loop ran out while it was still running.
\<close>

datatype 'r status = Fallthrough | Return 'r | Out_of_fuel

subsection \<open>The calls of the program\<close>

definition SLEEP_TIME_MS :: int where
  "SLEEP_TIME_MS = 1000"

definition LOG_INF :: "string \<Rightarrow> 'h world \<Rightarrow> 'h world" where
  "LOG_INF msg w = w\<lparr>trace := trace w @ [Log_inf msg]\<rparr>"

text \<open>\<open>printk\<close> takes the text after formatting.\<close>

definition printk :: "string \<Rightarrow> 'h world \<Rightarrow> 'h world" where
  "printk text w = w\<lparr>trace := trace w @ [Printk text]\<rparr>"

definition led_on :: "'h platform \<Rightarrow> 32 word \<Rightarrow> 'h world \<Rightarrow> c_int \<times> 'h world" where
  "led_on p led w =
     (case dev_led_on p led (hw w) of
        (ret, h) \<Rightarrow> (ret, w\<lparr>hw := h, trace := trace w @ [Led_on led]\<rparr>))"

definition led_off :: "'h platform \<Rightarrow> 32 word \<Rightarrow> 'h world \<Rightarrow> c_int \<times> 'h world" where
  "led_off p led w =
     (case dev_led_off p led (hw w) of
        (ret, h) \<Rightarrow> (ret, w\<lparr>hw := h, trace := trace w @ [Led_off led]\<rparr>))"

text \<open>
  Both sleeps park the thread for the given milliseconds. Their return value (the time
  left when woken early) is never read by the program and is left out.
\<close>

fun k_sleep :: "'h platform \<Rightarrow> k_timeout_t \<Rightarrow> 'h world \<Rightarrow> 'h world" where
  "k_sleep p (K_MSEC ms) w = w\<lparr>hw := dev_elapse p ms (hw w), trace := trace w @ [Sleep_ms ms]\<rparr>"

definition k_msleep :: "'h platform \<Rightarrow> int \<Rightarrow> 'h world \<Rightarrow> 'h world" where
  "k_msleep p ms w = w\<lparr>hw := dev_elapse p ms (hw w), trace := trace w @ [Sleep_ms ms]\<rparr>"

definition gpio_is_ready_dt :: "'h platform \<Rightarrow> 'h world \<Rightarrow> bool \<times> 'h world" where
  "gpio_is_ready_dt p w = (dev_is_ready p (hw w), w\<lparr>trace := trace w @ [Is_ready]\<rparr>)"

definition gpio_pin_configure_dt ::
  "'h platform \<Rightarrow> gpio_flags_t \<Rightarrow> 'h world \<Rightarrow> c_int \<times> 'h world" where
  "gpio_pin_configure_dt p flags w =
     (case dev_pin_configure p flags (hw w) of
        (ret, h) \<Rightarrow> (ret, w\<lparr>hw := h, trace := trace w @ [Configure flags]\<rparr>))"

definition gpio_pin_toggle_dt :: "'h platform \<Rightarrow> 'h world \<Rightarrow> c_int \<times> 'h world" where
  "gpio_pin_toggle_dt p w =
     (case dev_pin_toggle p (hw w) of
        (ret, h) \<Rightarrow> (ret, w\<lparr>hw := h, trace := trace w @ [Toggle]\<rparr>))"

subsection \<open>The loop statement\<close>

text \<open>
  \<open>while (c) body\<close>, run for at most the given number of iterations. The condition
  is tested before each iteration; a \<open>return\<close> in the body ends the loop and the
  function; when the fuel is spent with the condition still true the loop is still
  running.
\<close>

fun while_loop ::
  "('w \<Rightarrow> bool) \<Rightarrow> ('w \<Rightarrow> 'r status \<times> 'w) \<Rightarrow> nat \<Rightarrow> 'w \<Rightarrow> 'r status \<times> 'w" where
  "while_loop c body 0 w = (if c w then (Out_of_fuel, w) else (Fallthrough, w))"
| "while_loop c body (Suc n) w =
     (if c w then
        (case body w of
           (Fallthrough, w') \<Rightarrow> while_loop c body n w'
         | (st, w') \<Rightarrow> (st, w'))
      else (Fallthrough, w))"

text \<open>The condition of both loops is the constant 1, true in C as it is not 0.\<close>

definition cond_1 :: "'w \<Rightarrow> bool" where
  "cond_1 w = ((1::int) \<noteq> 0)"

subsection \<open>Variant A: the PMIC's LED driver (lines 21-34)\<close>

definition loop_body_A :: "'h platform \<Rightarrow> 'h world \<Rightarrow> c_int status \<times> 'h world" where
  "loop_body_A p w =
     (case led_on p 2 w of (_, w1) \<Rightarrow>
      let w2 = k_sleep p (K_MSEC SLEEP_TIME_MS) w1 in
      case led_off p 2 w2 of (_, w3) \<Rightarrow>
      let w4 = k_sleep p (K_MSEC SLEEP_TIME_MS) w3 in
      (Fallthrough, w4))"

text \<open>The statement after the loop: \<open>return 0\<close>.\<close>

definition after_loop_A :: "'h world \<Rightarrow> c_int status \<times> 'h world" where
  "after_loop_A w = (Return 0, w)"

definition main_A :: "'h platform \<Rightarrow> nat \<Rightarrow> 'h world \<Rightarrow> c_int status \<times> 'h world" where
  "main_A p fuel w =
     (let w1 = LOG_INF ''Blinky Sample'' w in
      case while_loop cond_1 (loop_body_A p) fuel w1 of
        (Fallthrough, w2) \<Rightarrow> after_loop_A w2
      | (st, w2) \<Rightarrow> (st, w2))"

subsection \<open>Variant B: the GPIO pin of the led0 alias (lines 47-73)\<close>

definition loop_body_B :: "'h platform \<Rightarrow> 'h world \<Rightarrow> unit status \<times> 'h world" where
  "loop_body_B p w =
     (case gpio_pin_toggle_dt p w of (ret, w1) \<Rightarrow>
      if sint ret < 0 then (Return (), w1)
      else (Fallthrough, k_msleep p SLEEP_TIME_MS w1))"

text \<open>
  \<open>CONFIG_BOARD\<close> is the board's name, a string fixed by the build. The function is
  \<open>void\<close>: reaching its end returns as the \<open>return\<close> statements do.
\<close>

definition main_B :: "'h platform \<Rightarrow> string \<Rightarrow> nat \<Rightarrow> 'h world \<Rightarrow> unit status \<times> 'h world" where
  "main_B p CONFIG_BOARD fuel w =
     (let w1 = printk (''Hello World! '' @ CONFIG_BOARD @ [CHR 0x0A]) w in
      case gpio_is_ready_dt p w1 of (ready, w2) \<Rightarrow>
      if \<not> ready then (Return (), w2)
      else
        case gpio_pin_configure_dt p GPIO_OUTPUT_ACTIVE w2 of (ret, w3) \<Rightarrow>
        if sint ret < 0 then (Return (), w3)
        else
          (case while_loop cond_1 (loop_body_B p) fuel w3 of
             (Fallthrough, w4) \<Rightarrow> (Return (), w4)
           | (st, w4) \<Rightarrow> (st, w4)))"

subsection \<open>What a run leaves behind\<close>

text \<open>
  The hardware after one full iteration of Variant B's loop (a toggle that succeeded,
  then the sleep), after \<open>n\<close> of them, and whether the first \<open>n\<close> toggles all
  succeed when the loop starts on hardware \<open>h\<close>.
\<close>

definition iteration_B :: "'h platform \<Rightarrow> 'h \<Rightarrow> 'h" where
  "iteration_B p h = dev_elapse p SLEEP_TIME_MS (snd (dev_pin_toggle p h))"

primrec after_B :: "'h platform \<Rightarrow> nat \<Rightarrow> 'h \<Rightarrow> 'h" where
  "after_B p 0 h = h"
| "after_B p (Suc n) h = after_B p n (iteration_B p h)"

primrec toggles_ok :: "'h platform \<Rightarrow> nat \<Rightarrow> 'h \<Rightarrow> bool" where
  "toggles_ok p 0 h = True"
| "toggles_ok p (Suc n) h =
     (0 \<le> sint (fst (dev_pin_toggle p h)) \<and> toggles_ok p n (iteration_B p h))"

text \<open>The calls of \<open>n\<close> full iterations of Variant B's loop, and of its start-up.\<close>

definition blinks_B :: "nat \<Rightarrow> event list" where
  "blinks_B n = concat (replicate n [Toggle, Sleep_ms 1000])"

definition greeting_B :: "string \<Rightarrow> event" where
  "greeting_B board = Printk (''Hello World! '' @ board @ [CHR 0x0A])"

text \<open>
  The hardware as the configuration call of line 58 leaves it, and the three calls of
  a start-up that reaches the loop.
\<close>

definition configured_B :: "'h platform \<Rightarrow> 'h \<Rightarrow> 'h" where
  "configured_B p h = snd (dev_pin_configure p GPIO_OUTPUT_ACTIVE h)"

definition startup_B :: "string \<Rightarrow> event list" where
  "startup_B board = [greeting_B board, Is_ready, Configure GPIO_OUTPUT_ACTIVE]"

text \<open>The same for Variant A: one full on/off cycle on the hardware, and its calls.\<close>

definition iteration_A :: "'h platform \<Rightarrow> 'h \<Rightarrow> 'h" where
  "iteration_A p h =
     dev_elapse p SLEEP_TIME_MS (snd (dev_led_off p 2
       (dev_elapse p SLEEP_TIME_MS (snd (dev_led_on p 2 h)))))"

primrec after_A :: "'h platform \<Rightarrow> nat \<Rightarrow> 'h \<Rightarrow> 'h" where
  "after_A p 0 h = h"
| "after_A p (Suc n) h = after_A p n (iteration_A p h)"

definition cycles_A :: "nat \<Rightarrow> event list" where
  "cycles_A n = concat (replicate n [Led_on 2, Sleep_ms 1000, Led_off 2, Sleep_ms 1000])"

text \<open>The calls that write diagnostic output.\<close>

fun is_diagnostic :: "event \<Rightarrow> bool" where
  "is_diagnostic (Log_inf _) = True"
| "is_diagnostic (Printk _) = True"
| "is_diagnostic _ = False"

fun is_configure :: "event \<Rightarrow> bool" where
  "is_configure (Configure _) = True"
| "is_configure _ = False"

subsection \<open>A simulated GPIO pin\<close>

text \<open>
  Modelled from the spec: the GPIO driver behind \<open>gpio_is_ready_dt\<close>,
  \<open>gpio_pin_configure_dt\<close> and \<open>gpio_pin_toggle_dt\<close> is the platform's and is not
  part of this repository. The spec's test scenarios run Variant B on a simulated
  "ready, configurable GPIO" that records the pin's levels. This is that simulation:
  a pin with a logical level, a scripted answer to the readiness check, to the
  configuration call and to each successive toggle call (a call past the end of the
  script succeeds with 0), and a record with one entry per toggle that took effect. The
  scenario asserts that the record "alternates starting from active and contains
  exactly N entries after N toggles": an entry is the level the toggle finds the pin
  at, the first being the level the configuration set. A call that answers a negative
  status leaves the pin and the record as they were.
\<close>

datatype level = Active | Inactive

fun invert :: "level \<Rightarrow> level" where
  "invert Active = Inactive"
| "invert Inactive = Active"

datatype direction = Unconfigured | Input | Output

text \<open>
  Modelled from the spec: the state of the simulated pin. The platform's device
  structures are not in this repository; the fields are what the scenarios set up
  (readiness, the statuses to answer) and observe (direction, level, record).
\<close>

record sim_gpio =
  sim_ready :: bool
  sim_configure_ret :: c_int
  sim_toggle_rets :: "c_int list"
  sim_direction :: direction
  sim_level :: level
  sim_recorded :: "level list"

text \<open>
  Modelled from the spec: the driver's configuration call, absent from this repository.
  "Set the pin direction to output with initial state active": on success the pin takes
  the direction and the initial level the flags name.
\<close>

definition sim_configure :: "gpio_flags_t \<Rightarrow> sim_gpio \<Rightarrow> c_int \<times> sim_gpio" where
  "sim_configure flags g =
     (if sint (sim_configure_ret g) < 0 then (sim_configure_ret g, g)
      else
        (sim_configure_ret g,
         case flags of
           GPIO_INPUT \<Rightarrow> g\<lparr>sim_direction := Input\<rparr>
         | GPIO_OUTPUT_INACTIVE \<Rightarrow> g\<lparr>sim_direction := Output, sim_level := Inactive\<rparr>
         | GPIO_OUTPUT_ACTIVE \<Rightarrow> g\<lparr>sim_direction := Output, sim_level := Active\<rparr>))"

text \<open>
  Modelled from the spec: the driver's toggle call, absent from this repository.
  "Toggle the pin's logical state": on success the level is inverted, and the level the
  toggle found is appended to the record ("starting from active", one entry per
  toggle); "a negative status code" is a failure.
\<close>

definition sim_toggle_with :: "c_int \<Rightarrow> sim_gpio \<Rightarrow> c_int \<times> sim_gpio" where
  "sim_toggle_with ret g =
     (if sint ret < 0 then (ret, g)
      else
        (ret, g\<lparr>sim_level := invert (sim_level g),
                sim_recorded := sim_recorded g @ [sim_level g]\<rparr>))"

text \<open>
  Modelled from the spec: a toggle call takes the next status of the script, 0 when
  the script is used up.
\<close>

definition sim_toggle :: "sim_gpio \<Rightarrow> c_int \<times> sim_gpio" where
  "sim_toggle g =
     (case sim_toggle_rets g of
        [] \<Rightarrow> sim_toggle_with 0 g
      | ret # rets \<Rightarrow> sim_toggle_with ret (g\<lparr>sim_toggle_rets := rets\<rparr>))"

text \<open>
  Modelled from the spec: the simulated pin as a platform. It has no LED controller:
  its LED calls answer \<open>-ENODEV\<close> (-19). Time passing changes nothing on the pin.
\<close>

definition sim_platform :: "sim_gpio platform" where
  "sim_platform =
     \<lparr>dev_led_on = (\<lambda>led g. (- 19, g)),
      dev_led_off = (\<lambda>led g. (- 19, g)),
      dev_is_ready = sim_ready,
      dev_pin_configure = sim_configure,
      dev_pin_toggle = sim_toggle,
      dev_elapse = (\<lambda>ms g. g)\<rparr>"

text \<open>A pin before the program starts: nothing configured, nothing recorded.\<close>

definition sim_fresh :: "bool \<Rightarrow> c_int \<Rightarrow> c_int list \<Rightarrow> sim_gpio" where
  "sim_fresh ready cfg rets =
     \<lparr>sim_ready = ready, sim_configure_ret = cfg, sim_toggle_rets = rets,
      sim_direction = Unconfigured, sim_level = Inactive, sim_recorded = []\<rparr>"

text \<open>
  A sequence of levels alternates from \<open>l\<close>: its first entry is \<open>l\<close> and every
  further entry is the inverse of the one before it.
\<close>

fun alternates_from :: "level \<Rightarrow> level list \<Rightarrow> bool" where
  "alternates_from l [] = True"
| "alternates_from l (x # xs) = (x = l \<and> alternates_from (invert l) xs)"

text \<open>
  What the test scenarios observe on the simulated pin: whether a toggle status counts
  as success (the program's own test, \<open>ret < 0\<close> negated), and the pin's level and
  the record once Variant B has run \<open>n\<close> iterations from a pin \<open>g\<close>.
\<close>

definition toggle_succeeds :: "c_int \<Rightarrow> bool" where
  "toggle_succeeds ret = (0 \<le> sint ret)"

definition level_after :: "string \<Rightarrow> nat \<Rightarrow> sim_gpio \<Rightarrow> level" where
  "level_after board n g = sim_level (hw (snd (main_B sim_platform board n (boot g))))"

definition recorded_after :: "string \<Rightarrow> nat \<Rightarrow> sim_gpio \<Rightarrow> level list" where
  "recorded_after board n g = sim_recorded (hw (snd (main_B sim_platform board n (boot g))))"

section \<open>Properties\<close>

subsection \<open>One iteration, and the loop over any number of them\<close>

lemma cond_1_true: "cond_1 w"
  by (simp add: cond_1_def)

lemma while_loop_1_0: "while_loop cond_1 body 0 w = (Out_of_fuel, w)"
  by (simp add: cond_1_def)

lemma while_loop_1_Suc:
  "while_loop cond_1 body (Suc n) w =
     (case body w of
        (Fallthrough, w') \<Rightarrow> while_loop cond_1 body n w'
      | (st, w') \<Rightarrow> (st, w'))"
  by (simp add: cond_1_def)

lemma loop_body_B_ok:
  "0 \<le> sint (fst (dev_pin_toggle p (hw w))) \<Longrightarrow>
   loop_body_B p w =
     (Fallthrough, w\<lparr>hw := iteration_B p (hw w), trace := trace w @ [Toggle, Sleep_ms 1000]\<rparr>)"
  by (cases "dev_pin_toggle p (hw w)")
     (simp add: loop_body_B_def gpio_pin_toggle_dt_def k_msleep_def iteration_B_def
        SLEEP_TIME_MS_def)

lemma loop_body_B_fail:
  "sint (fst (dev_pin_toggle p (hw w))) < 0 \<Longrightarrow>
   loop_body_B p w =
     (Return (), w\<lparr>hw := snd (dev_pin_toggle p (hw w)), trace := trace w @ [Toggle]\<rparr>)"
  by (cases "dev_pin_toggle p (hw w)") (simp add: loop_body_B_def gpio_pin_toggle_dt_def)

lemma loop_B_running:
  "toggles_ok p n (hw w) \<Longrightarrow>
   while_loop cond_1 (loop_body_B p) n w =
     (Out_of_fuel, w\<lparr>hw := after_B p n (hw w), trace := trace w @ blinks_B n\<rparr>)"
proof (induction n arbitrary: w)
  case 0
  then show ?case by (simp add: cond_1_true blinks_B_def)
next
  case (Suc n)
  then show ?case
    by (simp add: cond_1_true loop_body_B_ok blinks_B_def)
qed

lemma loop_B_abort:
  "toggles_ok p k (hw w) \<Longrightarrow> sint (fst (dev_pin_toggle p (after_B p k (hw w)))) < 0 \<Longrightarrow>
   k < fuel \<Longrightarrow>
   while_loop cond_1 (loop_body_B p) fuel w =
     (Return (), w\<lparr>hw := snd (dev_pin_toggle p (after_B p k (hw w))),
                    trace := trace w @ blinks_B k @ [Toggle]\<rparr>)"
proof (induction k arbitrary: w fuel)
  case 0
  then obtain m where "fuel = Suc m" by (cases fuel) auto
  with 0 show ?case by (simp add: cond_1_true loop_body_B_fail blinks_B_def)
next
  case (Suc k)
  then obtain m where m: "fuel = Suc m" "k < m" by (cases fuel) auto
  with Suc show ?case
    by (simp add: cond_1_true loop_body_B_ok blinks_B_def)
qed

text \<open>
  Whatever the toggles answer, the loop only appends to the trace, and nothing it
  appends is diagnostic output.
\<close>

lemma loop_B_trace:
  "\<exists>ys. trace (snd (while_loop cond_1 (loop_body_B p) n w)) = trace w @ ys
     \<and> filter is_diagnostic ys = []"
proof (induction n arbitrary: w)
  case 0
  show ?case by (simp add: cond_1_true)
next
  case (Suc n)
  show ?case
  proof (cases "sint (fst (dev_pin_toggle p (hw w))) < 0")
    case True
    then show ?thesis by (simp add: cond_1_true loop_body_B_fail)
  next
    case False
    then have ok: "0 \<le> sint (fst (dev_pin_toggle p (hw w)))" by simp
    obtain ys where
      "trace (snd (while_loop cond_1 (loop_body_B p) n
         (w\<lparr>hw := iteration_B p (hw w), trace := trace w @ [Toggle, Sleep_ms 1000]\<rparr>))) =
       (trace w @ [Toggle, Sleep_ms 1000]) @ ys" and "filter is_diagnostic ys = []"
      using Suc [of "w\<lparr>hw := iteration_B p (hw w), trace := trace w @ [Toggle, Sleep_ms 1000]\<rparr>"]
      by auto
    then have "trace (snd (while_loop cond_1 (loop_body_B p) (Suc n) w)) =
        trace w @ (Toggle # Sleep_ms 1000 # ys)"
      by (simp add: cond_1_true loop_body_B_ok [OF ok])
    with \<open>filter is_diagnostic ys = []\<close> show ?thesis
      by (intro exI [of _ "Toggle # Sleep_ms 1000 # ys"]) simp
  qed
qed

lemma main_B_init_ok:
  assumes "dev_is_ready p h" and "0 \<le> sint (fst (dev_pin_configure p GPIO_OUTPUT_ACTIVE h))"
  shows "main_B p board fuel (boot h) =
     (case while_loop cond_1 (loop_body_B p) fuel
        \<lparr>hw = configured_B p h, trace = startup_B board\<rparr> of
        (Fallthrough, w4) \<Rightarrow> (Return (), w4)
      | (st, w4) \<Rightarrow> (st, w4))"
  using assms
  by (cases "dev_pin_configure p GPIO_OUTPUT_ACTIVE h")
     (simp add: main_B_def boot_def printk_def gpio_is_ready_dt_def greeting_B_def
        gpio_pin_configure_dt_def configured_B_def startup_B_def)

lemma main_B_status_cases:
  "(case while_loop cond_1 (loop_body_B p) fuel w of
      (Fallthrough, w4) \<Rightarrow> (Return (), w4)
    | (st, w4) \<Rightarrow> (st, w4)) = (st', w') \<Longrightarrow>
   w' = snd (while_loop cond_1 (loop_body_B p) fuel w)"
  by (cases "while_loop cond_1 (loop_body_B p) fuel w")
     (auto split: status.splits)

lemma main_B_trace:
  "\<exists>ys. trace (snd (main_B p board fuel (boot h))) = greeting_B board # Is_ready # ys
     \<and> filter is_diagnostic ys = []
     \<and> (dev_is_ready p h \<longrightarrow> take 1 ys = [Configure GPIO_OUTPUT_ACTIVE])"
proof (cases "dev_is_ready p h")
  case False
  then show ?thesis
    by (simp add: main_B_def boot_def printk_def gpio_is_ready_dt_def greeting_B_def)
next
  case True
  show ?thesis
  proof (cases "sint (fst (dev_pin_configure p GPIO_OUTPUT_ACTIVE h)) < 0")
    case neg: True
    with True show ?thesis
      by (cases "dev_pin_configure p GPIO_OUTPUT_ACTIVE h")
         (simp add: main_B_def boot_def printk_def gpio_is_ready_dt_def greeting_B_def
            gpio_pin_configure_dt_def)
  next
    case False
    then have ok: "0 \<le> sint (fst (dev_pin_configure p GPIO_OUTPUT_ACTIVE h))" by simp
    obtain ys where ys:
      "trace (snd (while_loop cond_1 (loop_body_B p) fuel
         \<lparr>hw = configured_B p h, trace = startup_B board\<rparr>)) = startup_B board @ ys"
      "filter is_diagnostic ys = []"
      using loop_B_trace [of p fuel "\<lparr>hw = configured_B p h, trace = startup_B board\<rparr>"]
      by auto
    have "snd (main_B p board fuel (boot h)) =
        snd (while_loop cond_1 (loop_body_B p) fuel
          \<lparr>hw = configured_B p h, trace = startup_B board\<rparr>)"
      using main_B_status_cases [of p fuel "\<lparr>hw = configured_B p h, trace = startup_B board\<rparr>"]
      by (simp add: main_B_init_ok [OF True ok] prod_eq_iff)
    with ys True show ?thesis by (simp add: startup_B_def)
  qed
qed

subsection \<open>Variant B: start-up\<close>

text \<open>
  C3: when the readiness check on the GPIO controller fails, the entry point returns at
  once, for any fuel: the trace holds the greeting and the readiness check and nothing
  else, so no configuration call and no toggle call was made and the loop was never
  entered; the hardware is untouched.
\<close>

theorem main_B_not_ready:
  assumes "\<not> dev_is_ready p h"
  shows "main_B p board fuel (boot h) = (Return (), \<lparr>hw = h, trace = [greeting_B board, Is_ready]\<rparr>)
    \<and> Toggle \<notin> set (trace (snd (main_B p board fuel (boot h))))
    \<and> filter is_configure (trace (snd (main_B p board fuel (boot h)))) = []"
  using assms
  by (simp add: main_B_def boot_def printk_def gpio_is_ready_dt_def greeting_B_def)

theorem main_B_not_ready_witness:
  "\<not> dev_is_ready sim_platform (sim_fresh False 0 [])
   \<and> main_B sim_platform ''nfed'' 4 (boot (sim_fresh False 0 [])) =
       (Return (), \<lparr>hw = sim_fresh False 0 [],
          trace = [Printk (''Hello World! nfed'' @ [CHR 0x0A]), Is_ready]\<rparr>)
   \<and> Toggle \<notin> set (trace (snd (main_B sim_platform ''nfed'' 4 (boot (sim_fresh False 0 [])))))
   \<and> filter is_configure (trace (snd (main_B sim_platform ''nfed'' 4 (boot (sim_fresh False 0 []))))) = []"
proof -
  have nr: "\<not> dev_is_ready sim_platform (sim_fresh False 0 [])"
    by (simp add: sim_platform_def sim_fresh_def)
  show ?thesis
    using nr main_B_not_ready [OF nr, of "''nfed''" 4] by (simp add: greeting_B_def)
qed

text \<open>
  C4: on a ready controller the third call is the configuration of the pin with
  \<open>GPIO_OUTPUT_ACTIVE\<close>, output with initial state active. When that call answers a
  negative status the entry point returns at once, for any fuel, with exactly the three
  start-up calls in the trace: no toggle call, no loop. When it succeeds the loop is
  entered on the hardware as that call left it; on the simulated pin this is a pin in
  output mode at the active level.
\<close>

theorem main_B_configure_fails:
  assumes "dev_is_ready p h"
  shows "take 3 (trace (snd (main_B p board fuel (boot h)))) = startup_B board
    \<and> (sint (fst (dev_pin_configure p GPIO_OUTPUT_ACTIVE h)) < 0 \<longrightarrow>
         main_B p board fuel (boot h) =
           (Return (), \<lparr>hw = configured_B p h, trace = startup_B board\<rparr>)
         \<and> Toggle \<notin> set (trace (snd (main_B p board fuel (boot h)))))
    \<and> (0 \<le> sint (fst (dev_pin_configure p GPIO_OUTPUT_ACTIVE h)) \<longrightarrow>
         main_B p board 0 (boot h) =
           (Out_of_fuel, \<lparr>hw = configured_B p h, trace = startup_B board\<rparr>))
    \<and> (sim_ready g \<and> 0 \<le> sint (sim_configure_ret g) \<longrightarrow>
         fst (main_B sim_platform board 0 (boot g)) = Out_of_fuel
         \<and> sim_direction (hw (snd (main_B sim_platform board 0 (boot g)))) = Output
         \<and> sim_level (hw (snd (main_B sim_platform board 0 (boot g)))) = Active)"
proof (intro conjI impI)
  obtain ys where "trace (snd (main_B p board fuel (boot h))) = greeting_B board # Is_ready # ys"
    and "take 1 ys = [Configure GPIO_OUTPUT_ACTIVE]"
    using main_B_trace [of p board fuel h] assms by auto
  then show "take 3 (trace (snd (main_B p board fuel (boot h)))) = startup_B board"
    by (cases ys) (simp_all add: startup_B_def)
next
  assume neg: "sint (fst (dev_pin_configure p GPIO_OUTPUT_ACTIVE h)) < 0"
  with assms show ret: "main_B p board fuel (boot h) =
           (Return (), \<lparr>hw = configured_B p h, trace = startup_B board\<rparr>)"
    by (cases "dev_pin_configure p GPIO_OUTPUT_ACTIVE h")
       (simp add: main_B_def boot_def printk_def gpio_is_ready_dt_def greeting_B_def
          gpio_pin_configure_dt_def configured_B_def startup_B_def)
  show "Toggle \<notin> set (trace (snd (main_B p board fuel (boot h))))"
    by (simp add: ret startup_B_def greeting_B_def)
next
  assume ok: "0 \<le> sint (fst (dev_pin_configure p GPIO_OUTPUT_ACTIVE h))"
  show "main_B p board 0 (boot h) =
           (Out_of_fuel, \<lparr>hw = configured_B p h, trace = startup_B board\<rparr>)"
    by (simp add: main_B_init_ok [OF assms ok] cond_1_true)
next
  assume sim: "sim_ready g \<and> 0 \<le> sint (sim_configure_ret g)"
  then have r: "dev_is_ready sim_platform g"
    and c: "0 \<le> sint (fst (dev_pin_configure sim_platform GPIO_OUTPUT_ACTIVE g))"
    by (simp_all add: sim_platform_def sim_configure_def)
  have run: "main_B sim_platform board 0 (boot g) =
      (Out_of_fuel, \<lparr>hw = configured_B sim_platform g, trace = startup_B board\<rparr>)"
    by (simp add: main_B_init_ok [OF r c] cond_1_true)
  have pin: "configured_B sim_platform g = g\<lparr>sim_direction := Output, sim_level := Active\<rparr>"
    using sim by (simp add: configured_B_def sim_platform_def sim_configure_def)
  show "fst (main_B sim_platform board 0 (boot g)) = Out_of_fuel"
    by (simp add: run)
  show "sim_direction (hw (snd (main_B sim_platform board 0 (boot g)))) = Output"
    by (simp add: run pin)
  show "sim_level (hw (snd (main_B sim_platform board 0 (boot g)))) = Active"
    by (simp add: run pin)
qed

theorem main_B_configure_fails_witness:
  "dev_is_ready sim_platform (sim_fresh True (- 22) [])
   \<and> take 3 (trace (snd (main_B sim_platform ''nfed'' 4 (boot (sim_fresh True (- 22) []))))) =
       [Printk (''Hello World! nfed'' @ [CHR 0x0A]), Is_ready, Configure GPIO_OUTPUT_ACTIVE]
   \<and> sint (fst (dev_pin_configure sim_platform GPIO_OUTPUT_ACTIVE (sim_fresh True (- 22) []))) < 0
   \<and> main_B sim_platform ''nfed'' 4 (boot (sim_fresh True (- 22) [])) =
       (Return (), \<lparr>hw = sim_fresh True (- 22) [],
          trace = [Printk (''Hello World! nfed'' @ [CHR 0x0A]), Is_ready,
                   Configure GPIO_OUTPUT_ACTIVE]\<rparr>)
   \<and> Toggle \<notin> set (trace (snd (main_B sim_platform ''nfed'' 4 (boot (sim_fresh True (- 22) [])))))
   \<and> dev_is_ready sim_platform (sim_fresh True 0 [])
   \<and> 0 \<le> sint (fst (dev_pin_configure sim_platform GPIO_OUTPUT_ACTIVE (sim_fresh True 0 [])))
   \<and> main_B sim_platform ''nfed'' 0 (boot (sim_fresh True 0 [])) =
       (Out_of_fuel,
        \<lparr>hw = (sim_fresh True 0 [])\<lparr>sim_direction := Output, sim_level := Active\<rparr>,
         trace = [Printk (''Hello World! nfed'' @ [CHR 0x0A]), Is_ready,
                  Configure GPIO_OUTPUT_ACTIVE]\<rparr>)
   \<and> sim_ready (sim_fresh True 0 [])
   \<and> 0 \<le> sint (sim_configure_ret (sim_fresh True 0 []))
   \<and> sim_direction (hw (snd (main_B sim_platform ''nfed'' 0 (boot (sim_fresh True 0 []))))) = Output
   \<and> sim_level (hw (snd (main_B sim_platform ''nfed'' 0 (boot (sim_fresh True 0 []))))) = Active"
proof -
  have r: "dev_is_ready sim_platform (sim_fresh True (- 22) [])"
    by (simp add: sim_platform_def sim_fresh_def)
  have n: "sint (fst (dev_pin_configure sim_platform GPIO_OUTPUT_ACTIVE
      (sim_fresh True (- 22) []))) < 0"
    by (simp add: sim_platform_def sim_fresh_def sim_configure_def)
  have c: "configured_B sim_platform (sim_fresh True (- 22) []) = sim_fresh True (- 22) []"
    by (simp add: configured_B_def sim_platform_def sim_fresh_def sim_configure_def)
  have r': "dev_is_ready sim_platform (sim_fresh True 0 [])"
    by (simp add: sim_platform_def sim_fresh_def)
  have ok: "0 \<le> sint (fst (dev_pin_configure sim_platform GPIO_OUTPUT_ACTIVE
      (sim_fresh True 0 [])))"
    by (simp add: sim_platform_def sim_fresh_def sim_configure_def)
  have c': "configured_B sim_platform (sim_fresh True 0 []) =
      (sim_fresh True 0 [])\<lparr>sim_direction := Output, sim_level := Active\<rparr>"
    by (simp add: configured_B_def sim_platform_def sim_fresh_def sim_configure_def)
  have s: "sim_ready (sim_fresh True 0 [])" "0 \<le> sint (sim_configure_ret (sim_fresh True 0 []))"
    by (simp_all add: sim_fresh_def)
  have fail: "take 3 (trace (snd (main_B sim_platform ''nfed'' 4 (boot (sim_fresh True (- 22) []))))) =
       [Printk (''Hello World! nfed'' @ [CHR 0x0A]), Is_ready, Configure GPIO_OUTPUT_ACTIVE]
   \<and> main_B sim_platform ''nfed'' 4 (boot (sim_fresh True (- 22) [])) =
       (Return (), \<lparr>hw = sim_fresh True (- 22) [],
          trace = [Printk (''Hello World! nfed'' @ [CHR 0x0A]), Is_ready,
                   Configure GPIO_OUTPUT_ACTIVE]\<rparr>)
   \<and> Toggle \<notin> set (trace (snd (main_B sim_platform ''nfed'' 4 (boot (sim_fresh True (- 22) [])))))"
    using n main_B_configure_fails [OF r, of "''nfed''" 4]
    by (simp add: c startup_B_def greeting_B_def)
  have good: "main_B sim_platform ''nfed'' 0 (boot (sim_fresh True 0 [])) =
       (Out_of_fuel,
        \<lparr>hw = (sim_fresh True 0 [])\<lparr>sim_direction := Output, sim_level := Active\<rparr>,
         trace = [Printk (''Hello World! nfed'' @ [CHR 0x0A]), Is_ready,
                  Configure GPIO_OUTPUT_ACTIVE]\<rparr>)
   \<and> sim_direction (hw (snd (main_B sim_platform ''nfed'' 0 (boot (sim_fresh True 0 []))))) = Output
   \<and> sim_level (hw (snd (main_B sim_platform ''nfed'' 0 (boot (sim_fresh True 0 []))))) = Active"
    using ok s main_B_configure_fails [OF r', of "''nfed''" 0 "sim_fresh True 0 []"]
    by (simp add: c' startup_B_def greeting_B_def)
  show ?thesis
    using r n r' ok s fail good by simp
qed

subsection \<open>Variant B: the loop\<close>

text \<open>
  C1: after a successful readiness check and configuration, every iteration makes one
  toggle call. While the toggles answer a non-negative status, each is followed by a
  sleep of 1000 ms and the loop goes on: after \<open>n\<close> iterations the program is still
  running and has made exactly \<open>n\<close> toggle/sleep pairs. When toggle number
  \<open>k + 1\<close> is the first to answer a negative status, the entry point returns (given
  any fuel above \<open>k\<close>) and the trace ends with that toggle: no sleep after it, no
  retry, no further toggle.
\<close>

theorem main_B_toggle_loop:
  assumes "dev_is_ready p h" and "0 \<le> sint (fst (dev_pin_configure p GPIO_OUTPUT_ACTIVE h))"
  shows "(toggles_ok p n (configured_B p h) \<longrightarrow>
           main_B p board n (boot h) =
             (Out_of_fuel, \<lparr>hw = after_B p n (configured_B p h),
                             trace = startup_B board @ blinks_B n\<rparr>))
       \<and> (toggles_ok p k (configured_B p h)
           \<and> sint (fst (dev_pin_toggle p (after_B p k (configured_B p h)))) < 0 \<and> k < fuel \<longrightarrow>
           main_B p board fuel (boot h) =
             (Return (), \<lparr>hw = snd (dev_pin_toggle p (after_B p k (configured_B p h))),
                           trace = startup_B board @ blinks_B k @ [Toggle]\<rparr>))"
proof (intro conjI impI)
  assume "toggles_ok p n (configured_B p h)"
  then show "main_B p board n (boot h) =
             (Out_of_fuel, \<lparr>hw = after_B p n (configured_B p h),
                             trace = startup_B board @ blinks_B n\<rparr>)"
    using loop_B_running [of p n "\<lparr>hw = configured_B p h, trace = startup_B board\<rparr>"]
    by (simp add: main_B_init_ok [OF assms])
next
  assume "toggles_ok p k (configured_B p h)
           \<and> sint (fst (dev_pin_toggle p (after_B p k (configured_B p h)))) < 0 \<and> k < fuel"
  then show "main_B p board fuel (boot h) =
             (Return (), \<lparr>hw = snd (dev_pin_toggle p (after_B p k (configured_B p h))),
                           trace = startup_B board @ blinks_B k @ [Toggle]\<rparr>)"
    using loop_B_abort [of p k "\<lparr>hw = configured_B p h, trace = startup_B board\<rparr>" fuel]
    by (simp add: main_B_init_ok [OF assms])
qed

theorem main_B_toggle_loop_witness:
  "dev_is_ready sim_platform (sim_fresh True 0 [0, 0, - 5])
   \<and> 0 \<le> sint (fst (dev_pin_configure sim_platform GPIO_OUTPUT_ACTIVE (sim_fresh True 0 [0, 0, - 5])))
   \<and> toggles_ok sim_platform 2 (configured_B sim_platform (sim_fresh True 0 [0, 0, - 5]))
   \<and> main_B sim_platform ''nfed'' 2 (boot (sim_fresh True 0 [0, 0, - 5])) =
       (Out_of_fuel,
        \<lparr>hw = after_B sim_platform 2 (configured_B sim_platform (sim_fresh True 0 [0, 0, - 5])),
         trace = [Printk (''Hello World! nfed'' @ [CHR 0x0A]), Is_ready,
                  Configure GPIO_OUTPUT_ACTIVE, Toggle, Sleep_ms 1000, Toggle, Sleep_ms 1000]\<rparr>)
   \<and> sint (fst (dev_pin_toggle sim_platform
        (after_B sim_platform 2 (configured_B sim_platform (sim_fresh True 0 [0, 0, - 5]))))) < 0
   \<and> (2::nat) < 7
   \<and> main_B sim_platform ''nfed'' 7 (boot (sim_fresh True 0 [0, 0, - 5])) =
       (Return (),
        \<lparr>hw = snd (dev_pin_toggle sim_platform
           (after_B sim_platform 2 (configured_B sim_platform (sim_fresh True 0 [0, 0, - 5])))),
         trace = [Printk (''Hello World! nfed'' @ [CHR 0x0A]), Is_ready,
                  Configure GPIO_OUTPUT_ACTIVE, Toggle, Sleep_ms 1000, Toggle, Sleep_ms 1000,
                  Toggle]\<rparr>)"
proof -
  have r: "dev_is_ready sim_platform (sim_fresh True 0 [0, 0, - 5])"
    by (simp add: sim_platform_def sim_fresh_def)
  have c: "0 \<le> sint (fst (dev_pin_configure sim_platform GPIO_OUTPUT_ACTIVE
      (sim_fresh True 0 [0, 0, - 5])))"
    by (simp add: sim_platform_def sim_fresh_def sim_configure_def)
  have t: "toggles_ok sim_platform 2 (configured_B sim_platform (sim_fresh True 0 [0, 0, - 5]))"
    by code_simp
  have f: "sint (fst (dev_pin_toggle sim_platform
        (after_B sim_platform 2 (configured_B sim_platform (sim_fresh True 0 [0, 0, - 5]))))) < 0"
    by code_simp
  have b: "blinks_B 2 = [Toggle, Sleep_ms 1000, Toggle, Sleep_ms 1000]"
    by (simp add: blinks_B_def numeral_2_eq_2)
  show ?thesis
    using r c t f main_B_toggle_loop [OF r c, of 2 "''nfed''" 2 7]
    by (simp add: b startup_B_def greeting_B_def)
qed

subsection \<open>Variant A\<close>

lemma loop_body_A_eq:
  "loop_body_A p w =
     (Fallthrough, w\<lparr>hw := iteration_A p (hw w),
        trace := trace w @ [Led_on 2, Sleep_ms 1000, Led_off 2, Sleep_ms 1000]\<rparr>)"
  by (simp add: loop_body_A_def led_on_def led_off_def iteration_A_def SLEEP_TIME_MS_def
      case_prod_beta)

lemma loop_A_running:
  "while_loop cond_1 (loop_body_A p) n w =
     (Out_of_fuel, w\<lparr>hw := after_A p n (hw w), trace := trace w @ cycles_A n\<rparr>)"
proof (induction n arbitrary: w)
  case 0
  show ?case by (simp only: while_loop_1_0) (simp add: cycles_A_def)
next
  case (Suc n)
  have "while_loop cond_1 (loop_body_A p) (Suc n) w =
      while_loop cond_1 (loop_body_A p) n
        (w\<lparr>hw := iteration_A p (hw w),
           trace := trace w @ [Led_on 2, Sleep_ms 1000, Led_off 2, Sleep_ms 1000]\<rparr>)"
    by (simp only: while_loop_1_Suc loop_body_A_eq [of p w] prod.case status.case)
  then show ?case by (simp only: Suc) (simp add: cycles_A_def)
qed

text \<open>
  C2: Variant A's loop body is: LED channel 2 on, sleep 1000 ms, channel 2 off, sleep
  1000 ms. After \<open>n\<close> iterations the program is still in the loop and its trace is the
  log line followed by exactly \<open>n\<close> such cycles. This holds on every platform, that
  is, whatever status the on and off calls answer: their results are never looked at,
  and two platforms that answer differently see the same calls.
\<close>

theorem main_A_cycles:
  "main_A p n (boot h) =
     (Out_of_fuel, \<lparr>hw = after_A p n h, trace = Log_inf ''Blinky Sample'' # cycles_A n\<rparr>)
   \<and> trace (snd (main_A p n (boot h))) = trace (snd (main_A p' n (boot h')))"
  by (simp add: main_A_def LOG_INF_def boot_def loop_A_running)

text \<open>
  C7: Variant A never leaves its loop: for every amount of fuel the loop, and with it
  the entry point, is still running when the fuel is spent; the loop neither falls
  through nor returns, so the statement after it is never reached. That statement
  returns the exit code 0.
\<close>

theorem main_A_never_returns:
  "fst (while_loop cond_1 (loop_body_A p) fuel w) = Out_of_fuel
   \<and> fst (main_A p fuel w) = Out_of_fuel
   \<and> fst (after_loop_A w') = Return 0"
  by (simp add: main_A_def loop_A_running after_loop_A_def Let_def)

subsection \<open>Diagnostic output\<close>

lemma cycles_A_quiet: "filter is_diagnostic (cycles_A n) = []"
  by (induction n) (simp_all add: cycles_A_def)

text \<open>
  C8: the first call of Variant A is one informational log line with the text
  "Blinky Sample"; the first call of Variant B is one console write of the greeting
  "Hello World! " followed by the board's name and a newline. In both variants this is
  the only diagnostic output of the whole run, however long it runs and whatever the
  platform answers.
\<close>

theorem startup_diagnostics:
  "take 1 (trace (snd (main_A p fuel (boot h)))) = [Log_inf ''Blinky Sample'']
   \<and> filter is_diagnostic (trace (snd (main_A p fuel (boot h)))) = [Log_inf ''Blinky Sample'']
   \<and> take 1 (trace (snd (main_B q board fuel' (boot h')))) =
        [Printk (''Hello World! '' @ board @ [CHR 0x0A])]
   \<and> filter is_diagnostic (trace (snd (main_B q board fuel' (boot h')))) =
        [Printk (''Hello World! '' @ board @ [CHR 0x0A])]"
proof -
  obtain ys where "trace (snd (main_B q board fuel' (boot h'))) = greeting_B board # Is_ready # ys"
    and "filter is_diagnostic ys = []"
    using main_B_trace [of q board fuel' h'] by auto
  then show ?thesis
    by (simp add: main_A_def LOG_INF_def boot_def loop_A_running cycles_A_quiet greeting_B_def)
qed

text \<open>
  C10: Variant B writes its greeting before the readiness check, on every platform and
  for every run: the trace always starts with the greeting, then the readiness check,
  also when the controller is not ready or the configuration fails.
\<close>

theorem greeting_before_readiness_check:
  "take 2 (trace (snd (main_B p board fuel (boot h)))) =
     [Printk (''Hello World! '' @ board @ [CHR 0x0A]), Is_ready]
   \<and> Printk (''Hello World! '' @ board @ [CHR 0x0A]) \<in> set (trace (snd (main_B p board fuel (boot h))))"
proof -
  obtain ys where "trace (snd (main_B p board fuel (boot h))) = greeting_B board # Is_ready # ys"
    using main_B_trace [of p board fuel h] by auto
  then show ?thesis by (simp add: greeting_B_def)
qed

subsection \<open>Variant B on the simulated pin\<close>

lemma sim_iteration:
  "iteration_B sim_platform g = snd (sim_toggle g)"
  by (simp add: iteration_B_def sim_platform_def)

lemma sim_toggle_fst:
  "fst (sim_toggle g) = (case sim_toggle_rets g of [] \<Rightarrow> 0 | ret # _ \<Rightarrow> ret)"
  by (simp add: sim_toggle_def sim_toggle_with_def split: list.split)

lemma sim_toggle_ok:
  assumes "0 \<le> sint (fst (sim_toggle g))"
  shows "snd (sim_toggle g) =
     g\<lparr>sim_toggle_rets := tl (sim_toggle_rets g), sim_level := invert (sim_level g),
        sim_recorded := sim_recorded g @ [sim_level g]\<rparr>"
  using assms by (simp add: sim_toggle_def sim_toggle_with_def split: list.splits if_splits)

lemma sim_toggles_ok:
  "toggles_ok sim_platform n g = list_all toggle_succeeds (take n (sim_toggle_rets g))"
proof (induction n arbitrary: g)
  case 0
  show ?case by simp
next
  case (Suc n)
  show ?case
  proof (cases "0 \<le> sint (fst (sim_toggle g))")
    case True
    have "toggles_ok sim_platform (Suc n) g = toggles_ok sim_platform n (snd (sim_toggle g))"
      using True by (simp add: sim_iteration) (simp add: sim_platform_def)
    also have "\<dots> = list_all toggle_succeeds (take n (tl (sim_toggle_rets g)))"
      by (simp add: Suc sim_toggle_ok [OF True])
    also have "\<dots> = list_all toggle_succeeds (take (Suc n) (sim_toggle_rets g))"
      using True by (cases "sim_toggle_rets g") (simp_all add: sim_toggle_fst toggle_succeeds_def)
    finally show ?thesis .
  next
    case False
    then have "\<not> toggles_ok sim_platform (Suc n) g" by (simp add: sim_platform_def)
    moreover from False have "\<not> list_all toggle_succeeds (take (Suc n) (sim_toggle_rets g))"
      by (cases "sim_toggle_rets g") (simp_all add: sim_toggle_fst toggle_succeeds_def)
    ultimately show ?thesis by simp
  qed
qed

lemma sim_after_level:
  "toggles_ok sim_platform n g \<Longrightarrow>
   sim_level (after_B sim_platform n g) = (if even n then sim_level g else invert (sim_level g))"
proof (induction n arbitrary: g)
  case 0
  show ?case by simp
next
  case (Suc n)
  then have ok: "0 \<le> sint (fst (sim_toggle g))" and rest: "toggles_ok sim_platform n (snd (sim_toggle g))"
    by (simp_all add: sim_iteration) (simp_all add: sim_platform_def)
  have "invert (invert (sim_level g)) = sim_level g" by (cases "sim_level g") simp_all
  then show ?case
    using Suc.IH [OF rest] by (simp add: sim_iteration sim_toggle_ok [OF ok])
qed

lemma sim_after_recorded:
  "toggles_ok sim_platform n g \<Longrightarrow>
   \<exists>ys. sim_recorded (after_B sim_platform n g) = sim_recorded g @ ys
     \<and> length ys = n \<and> alternates_from (sim_level g) ys"
proof (induction n arbitrary: g)
  case 0
  show ?case by simp
next
  case (Suc n)
  then have ok: "0 \<le> sint (fst (sim_toggle g))" and rest: "toggles_ok sim_platform n (snd (sim_toggle g))"
    by (simp_all add: sim_iteration) (simp_all add: sim_platform_def)
  obtain ys where ys: "sim_recorded (after_B sim_platform n (snd (sim_toggle g))) =
      sim_recorded (snd (sim_toggle g)) @ ys" "length ys = n"
      "alternates_from (sim_level (snd (sim_toggle g))) ys"
    using Suc.IH [OF rest] by auto
  then show ?case
    by (intro exI [of _ "sim_level g # ys"])
       (simp add: sim_iteration sim_toggle_ok [OF ok])
qed

lemma sim_configured:
  "0 \<le> sint (sim_configure_ret g) \<Longrightarrow>
   configured_B sim_platform g = g\<lparr>sim_direction := Output, sim_level := Active\<rparr>"
  by (simp add: configured_B_def sim_platform_def sim_configure_def)

lemma count_blinks_B: "count_list (blinks_B n) Toggle = n"
  by (induction n) (simp_all add: blinks_B_def)

lemma sim_main_B_running:
  assumes "sim_ready g" and "0 \<le> sint (sim_configure_ret g)"
    and "list_all toggle_succeeds (take n (sim_toggle_rets g))"
  shows "main_B sim_platform board n (boot g) =
     (Out_of_fuel,
      \<lparr>hw = after_B sim_platform n (g\<lparr>sim_direction := Output, sim_level := Active\<rparr>),
       trace = startup_B board @ blinks_B n\<rparr>)"
    and "toggles_ok sim_platform n (g\<lparr>sim_direction := Output, sim_level := Active\<rparr>)"
proof -
  have r: "dev_is_ready sim_platform g"
    using assms(1) by (simp add: sim_platform_def)
  have c: "0 \<le> sint (fst (dev_pin_configure sim_platform GPIO_OUTPUT_ACTIVE g))"
    using assms(2) by (simp add: sim_platform_def sim_configure_def)
  show t: "toggles_ok sim_platform n (g\<lparr>sim_direction := Output, sim_level := Active\<rparr>)"
    using assms(3) by (simp add: sim_toggles_ok)
  then have "toggles_ok sim_platform n (configured_B sim_platform g)"
    by (simp add: sim_configured [OF assms(2)])
  then show "main_B sim_platform board n (boot g) =
     (Out_of_fuel,
      \<lparr>hw = after_B sim_platform n (g\<lparr>sim_direction := Output, sim_level := Active\<rparr>),
       trace = startup_B board @ blinks_B n\<rparr>)"
    using loop_B_running [of sim_platform n "\<lparr>hw = configured_B sim_platform g, trace = startup_B board\<rparr>"]
    by (simp add: main_B_init_ok [OF r c] sim_configured [OF assms(2)])
qed

lemma sim_level_after:
  assumes "sim_ready g" and "0 \<le> sint (sim_configure_ret g)"
    and "list_all toggle_succeeds (take k (sim_toggle_rets g))"
  shows "level_after board k g = (if even k then Active else Inactive)"
  using sim_after_level [OF sim_main_B_running(2) [OF assms]]
  by (simp add: sim_main_B_running(1) [OF assms] level_after_def)

lemma list_all_take_le:
  "m \<le> n \<Longrightarrow> list_all P (take n xs) \<Longrightarrow> list_all P (take m xs)"
  using set_take_subset_set_take [of m n xs] by (auto simp add: list_all_iff)

text \<open>
  C9: on the simulated pin, ready and configurable, with the first \<open>k\<close> toggles
  succeeding: after \<open>k\<close> iterations the program has made exactly \<open>k\<close> toggle
  calls, is still running, and the pin is active exactly when \<open>k\<close> is even. So the
  configuration leaves it active (\<open>k = 0\<close>) and the first toggle drives it inactive.
\<close>

theorem level_after_toggles:
  assumes "sim_ready g" and "0 \<le> sint (sim_configure_ret g)"
    and "list_all toggle_succeeds (take k (sim_toggle_rets g))"
  shows "fst (main_B sim_platform board k (boot g)) = Out_of_fuel
    \<and> count_list (trace (snd (main_B sim_platform board k (boot g)))) Toggle = k
    \<and> (level_after board k g = Active) = even k"
  by (simp add: sim_main_B_running(1) [OF assms] sim_level_after [OF assms]
      startup_B_def greeting_B_def count_blinks_B)

theorem level_after_toggles_witness:
  "sim_ready (sim_fresh True 0 [])
   \<and> 0 \<le> sint (sim_configure_ret (sim_fresh True 0 []))
   \<and> list_all toggle_succeeds (take 1 (sim_toggle_rets (sim_fresh True 0 [])))
   \<and> fst (main_B sim_platform ''nfed'' 1 (boot (sim_fresh True 0 []))) = Out_of_fuel
   \<and> count_list (trace (snd (main_B sim_platform ''nfed'' 1 (boot (sim_fresh True 0 []))))) Toggle = 1
   \<and> level_after ''nfed'' 1 (sim_fresh True 0 []) = Inactive"
proof -
  have a: "sim_ready (sim_fresh True 0 [])" "0 \<le> sint (sim_configure_ret (sim_fresh True 0 []))"
    "list_all toggle_succeeds (take 1 (sim_toggle_rets (sim_fresh True 0 [])))"
    by (simp_all add: sim_fresh_def)
  have "level_after ''nfed'' 1 (sim_fresh True 0 []) \<noteq> Active"
    using level_after_toggles [OF a, of "''nfed''"] by simp
  then have "level_after ''nfed'' 1 (sim_fresh True 0 []) = Inactive"
    by (cases "level_after ''nfed'' 1 (sim_fresh True 0 [])") simp_all
  then show ?thesis
    using a level_after_toggles [OF a, of "''nfed''"] by simp
qed

text \<open>
  C6, as amended: on the simulated pin, ready and configured, each iteration whose
  toggle call succeeds leaves the pin at the inverse of the level the iteration before
  left it at, and two such iterations in a row bring the level back to what it was.
\<close>

theorem iteration_inverts_level:
  assumes "sim_ready g" and "0 \<le> sint (sim_configure_ret g)"
  shows "(list_all toggle_succeeds (take (Suc n) (sim_toggle_rets g)) \<longrightarrow>
            level_after board (Suc n) g = invert (level_after board n g))
       \<and> (list_all toggle_succeeds (take (Suc (Suc n)) (sim_toggle_rets g)) \<longrightarrow>
            level_after board (Suc (Suc n)) g = level_after board n g)"
proof (intro conjI impI)
  assume ok: "list_all toggle_succeeds (take (Suc n) (sim_toggle_rets g))"
  then have "list_all toggle_succeeds (take n (sim_toggle_rets g))"
    by (rule list_all_take_le [rotated]) simp
  then show "level_after board (Suc n) g = invert (level_after board n g)"
    using ok by (simp add: sim_level_after [OF assms])
next
  assume ok: "list_all toggle_succeeds (take (Suc (Suc n)) (sim_toggle_rets g))"
  then have "list_all toggle_succeeds (take n (sim_toggle_rets g))"
    by (rule list_all_take_le [rotated]) simp
  then show "level_after board (Suc (Suc n)) g = level_after board n g"
    using ok by (simp add: sim_level_after [OF assms])
qed

theorem iteration_inverts_level_witness:
  "sim_ready (sim_fresh True 0 [0, 7, 0, - 5])
   \<and> 0 \<le> sint (sim_configure_ret (sim_fresh True 0 [0, 7, 0, - 5]))
   \<and> list_all toggle_succeeds (take (Suc 1) (sim_toggle_rets (sim_fresh True 0 [0, 7, 0, - 5])))
   \<and> level_after ''nfed'' 1 (sim_fresh True 0 [0, 7, 0, - 5]) = Inactive
   \<and> level_after ''nfed'' (Suc 1) (sim_fresh True 0 [0, 7, 0, - 5]) = Active
   \<and> list_all toggle_succeeds (take (Suc (Suc 1)) (sim_toggle_rets (sim_fresh True 0 [0, 7, 0, - 5])))
   \<and> level_after ''nfed'' (Suc (Suc 1)) (sim_fresh True 0 [0, 7, 0, - 5]) = Inactive"
proof -
  have a: "sim_ready (sim_fresh True 0 [0, 7, 0, - 5])"
    "0 \<le> sint (sim_configure_ret (sim_fresh True 0 [0, 7, 0, - 5]))"
    by (simp_all add: sim_fresh_def)
  have b: "list_all toggle_succeeds (take (Suc 1) (sim_toggle_rets (sim_fresh True 0 [0, 7, 0, - 5])))"
    "list_all toggle_succeeds (take (Suc (Suc 1)) (sim_toggle_rets (sim_fresh True 0 [0, 7, 0, - 5])))"
    by (simp_all add: sim_fresh_def toggle_succeeds_def)
  have l: "level_after ''nfed'' 1 (sim_fresh True 0 [0, 7, 0, - 5]) = Inactive"
    by code_simp
  show ?thesis
    using a b l iteration_inverts_level [OF a, of 1 "''nfed''"] by simp
qed

text \<open>
  C6, as stated for every iteration, fails when a toggle call fails: with a ready,
  configured pin whose first toggle answers -5, the first iteration makes its toggle
  call, the entry point returns, and the pin is still at the active level the
  configuration set, not at its inverse.
\<close>

theorem iteration_inverts_level_counterexample:
  "sim_ready (sim_fresh True 0 [- 5])
   \<and> 0 \<le> sint (sim_configure_ret (sim_fresh True 0 [- 5]))
   \<and> fst (main_B sim_platform ''nfed'' 1 (boot (sim_fresh True 0 [- 5]))) = Return ()
   \<and> count_list (trace (snd (main_B sim_platform ''nfed'' 1 (boot (sim_fresh True 0 [- 5])))))
        Toggle = 1
   \<and> level_after ''nfed'' 0 (sim_fresh True 0 [- 5]) = Active
   \<and> level_after ''nfed'' 1 (sim_fresh True 0 [- 5]) = Active
   \<and> level_after ''nfed'' 1 (sim_fresh True 0 [- 5])
        \<noteq> invert (level_after ''nfed'' 0 (sim_fresh True 0 [- 5]))"
  by code_simp

text \<open>
  C5: on the simulated pin, ready and configurable, with the first \<open>N\<close> toggles
  succeeding and an empty record at the start: after \<open>N\<close> iterations the program is
  still running and has made exactly \<open>N\<close> toggle calls, the record has exactly
  \<open>N\<close> entries, one per toggle, and it alternates starting from active. An entry is
  the level the toggle finds, so entry \<open>k + 1\<close> is the level after \<open>k\<close> toggles.
\<close>

theorem recorded_levels:
  assumes "sim_ready g" and "0 \<le> sint (sim_configure_ret g)"
    and "list_all toggle_succeeds (take n (sim_toggle_rets g))"
    and "sim_recorded g = []"
  shows "fst (main_B sim_platform board n (boot g)) = Out_of_fuel
    \<and> count_list (trace (snd (main_B sim_platform board n (boot g)))) Toggle = n
    \<and> length (recorded_after board n g) = n
    \<and> alternates_from Active (recorded_after board n g)"
  using sim_after_recorded [OF sim_main_B_running(2) [OF assms(1-3)]] assms(4)
  by (auto simp add: sim_main_B_running(1) [OF assms(1-3)] recorded_after_def startup_B_def
      greeting_B_def count_blinks_B)

theorem recorded_levels_witness:
  "sim_ready (sim_fresh True 0 [0, 7])
   \<and> 0 \<le> sint (sim_configure_ret (sim_fresh True 0 [0, 7]))
   \<and> list_all toggle_succeeds (take 3 (sim_toggle_rets (sim_fresh True 0 [0, 7])))
   \<and> sim_recorded (sim_fresh True 0 [0, 7]) = []
   \<and> fst (main_B sim_platform ''nfed'' 3 (boot (sim_fresh True 0 [0, 7]))) = Out_of_fuel
   \<and> count_list (trace (snd (main_B sim_platform ''nfed'' 3 (boot (sim_fresh True 0 [0, 7]))))) Toggle = 3
   \<and> length (recorded_after ''nfed'' 3 (sim_fresh True 0 [0, 7])) = 3
   \<and> alternates_from Active (recorded_after ''nfed'' 3 (sim_fresh True 0 [0, 7]))
   \<and> recorded_after ''nfed'' 3 (sim_fresh True 0 [0, 7]) = [Active, Inactive, Active]"
proof -
  have a: "sim_ready (sim_fresh True 0 [0, 7])"
    "0 \<le> sint (sim_configure_ret (sim_fresh True 0 [0, 7]))"
    "list_all toggle_succeeds (take 3 (sim_toggle_rets (sim_fresh True 0 [0, 7])))"
    "sim_recorded (sim_fresh True 0 [0, 7]) = []"
    by (simp_all add: sim_fresh_def toggle_succeeds_def)
  have r: "recorded_after ''nfed'' 3 (sim_fresh True 0 [0, 7]) = [Active, Inactive, Active]"
    by code_simp
  show ?thesis
    using a r recorded_levels [OF a, of "''nfed''"] by simp
qed

end
